theory Spec2Isabelle
  imports Main
begin

section \<open>The scheduled Bluesky bot: data model\<close>

text \<open>
  The program is \<^verbatim>\<open>src/bluesky_bot_scheduled.py\<close>. One run loads three files, picks one
  text, sends it and rewrites the files. The model passes the files and the effects of a
  run explicitly.

  A \<^verbatim>\<open>str\<close> is a \<open>string\<close>; a character stands for one code point below 256.
  The contents of the files have the types of their documented data model: a date-anchored
  entry is a dictionary whose keys \<^verbatim>\<open>date\<close>, \<^verbatim>\<open>text\<close>, \<^verbatim>\<open>posted_at\<close> hold strings and whose
  key \<^verbatim>\<open>posted\<close> holds a boolean; the history document holds a list of strings. Every key may
  be missing (the code reads each one with \<^verbatim>\<open>.get\<close> and a default), and an entry may carry
  further keys, which the code never reads.
\<close>

record post =
  date_field :: "string option"
  text_field :: "string option"
  posted_field :: "bool option"
  posted_at_field :: "string option"
  other_fields :: "(string \<times> string) list"

text \<open>\<^verbatim>\<open>post.get('date', '')\<close>, \<^verbatim>\<open>post.get('text', '')\<close>, \<^verbatim>\<open>post.get('posted', False)\<close>.\<close>

definition get_date :: "post \<Rightarrow> string" where
  "get_date p = (case date_field p of None \<Rightarrow> [] | Some d \<Rightarrow> d)"

definition get_text :: "post \<Rightarrow> string" where
  "get_text p = (case text_field p of None \<Rightarrow> [] | Some t \<Rightarrow> t)"

definition get_posted :: "post \<Rightarrow> bool" where
  "get_posted p = (case posted_field p of None \<Rightarrow> False | Some b \<Rightarrow> b)"

text \<open>
  A file is absent, present but not readable as what the loader expects (the loader's
  \<^verbatim>\<open>except\<close> branch), or present with a content. The history document is a dictionary
  that may lack the key \<^verbatim>\<open>recent_posts\<close>.
\<close>

datatype 'a file_content = Absent | Unreadable | Content 'a

datatype event = Login | SendPost string | WriteScheduled | WriteState

record world =
  scheduled_posts_file :: "post list file_content"
  regular_posts_file :: "string file_content"
  state_file :: "string list option file_content"
  effects :: "event list"

text \<open>
  What a run receives from outside: the environment variables, the calendar date of
  \<^verbatim>\<open>datetime.now()\<close> (one date for the whole run), the text of
  \<^verbatim>\<open>datetime.now().isoformat()\<close>, whether the login and the sending of a given text succeed,
  and the random draw: \<^verbatim>\<open>random.choice(xs)\<close> returns \<open>xs ! (random_draw mod length xs)\<close>,
  which ranges over every element of a non-empty \<open>xs\<close>.
\<close>

record env =
  bluesky_handle :: "string option"
  bluesky_password :: "string option"
  today_month :: nat
  today_day :: nat
  now_isoformat :: string
  login_ok :: bool
  send_ok :: "string \<Rightarrow> bool"
  random_draw :: nat

section \<open>Python strings and lists\<close>

text \<open>The slice \<^verbatim>\<open>xs[i:]\<close>: a negative start counts from the end and is clipped at 0.\<close>

definition slice_from :: "int \<Rightarrow> 'a list \<Rightarrow> 'a list" where
  "slice_from i xs =
     (let n = int (length xs);
          start = (if i < 0 then max 0 (n + i) else min i n)
      in drop (nat start) xs)"

text \<open>\<^verbatim>\<open>str.isspace\<close> on one code point below 256, and \<^verbatim>\<open>str.strip()\<close>.\<close>

definition is_space :: "char \<Rightarrow> bool" where
  "is_space c =
     (let n = (of_char c :: nat)
      in (9 \<le> n \<and> n \<le> 13) \<or> (28 \<le> n \<and> n \<le> 32) \<or> n = 133 \<or> n = 160)"

definition lstrip :: "string \<Rightarrow> string" where
  "lstrip s = dropWhile is_space s"

definition rstrip :: "string \<Rightarrow> string" where
  "rstrip s = rev (dropWhile is_space (rev s))"

definition strip :: "string \<Rightarrow> string" where
  "strip s = rstrip (lstrip s)"

text \<open>
  Reading a text file line by line: the reader turns \<^verbatim>\<open>\r\n\<close> and \<^verbatim>\<open>\r\<close> into
  \<^verbatim>\<open>\n\<close>, and each line keeps its final \<^verbatim>\<open>\n\<close>.
\<close>

fun universal_newlines :: "string \<Rightarrow> string" where
  "universal_newlines [] = []"
| "universal_newlines [c] = (if c = CHR 0x0D then [CHR 0x0A] else [c])"
| "universal_newlines (c # d # cs) =
     (if c = CHR 0x0D \<and> d = CHR 0x0A then CHR 0x0A # universal_newlines cs
      else if c = CHR 0x0D then CHR 0x0A # universal_newlines (d # cs)
      else c # universal_newlines (d # cs))"

fun split_lines :: "string \<Rightarrow> string list" where
  "split_lines [] = []"
| "split_lines (c # cs) =
     (if c = CHR 0x0A then [c] # split_lines cs
      else (case split_lines cs of
              [] \<Rightarrow> [[c]]
            | l # ls \<Rightarrow> (c # l) # ls))"

definition file_lines :: "string \<Rightarrow> string list" where
  "file_lines t = split_lines (universal_newlines t)"

text \<open>\<^verbatim>\<open>today.strftime('%m-%d')\<close>: month and day, two digits each.\<close>

definition digit_char :: "nat \<Rightarrow> char" where
  "digit_char n = ''0123456789'' ! (n mod 10)"

definition two_digits :: "nat \<Rightarrow> string" where
  "two_digits n = [digit_char (n div 10), digit_char n]"

definition today_month_day :: "env \<Rightarrow> string" where
  "today_month_day e = two_digits (today_month e) @ ''-'' @ two_digits (today_day e)"

section \<open>Loading and saving\<close>

text \<open>
  Each loader returns the empty list for a file that is absent or that it cannot read.
  A write replaces the content of the file; the model takes every write to succeed (the
  code logs a write that fails and carries on), and records it in \<open>effects\<close>.
\<close>

definition load_scheduled_posts :: "world \<Rightarrow> post list" where
  "load_scheduled_posts w =
     (case scheduled_posts_file w of
        Absent \<Rightarrow> []
      | Unreadable \<Rightarrow> []
      | Content posts \<Rightarrow> posts)"

definition load_regular_posts :: "world \<Rightarrow> string list" where
  "load_regular_posts w =
     (case regular_posts_file w of
        Absent \<Rightarrow> []
      | Unreadable \<Rightarrow> []
      | Content t \<Rightarrow> map strip (filter (\<lambda>line. strip line \<noteq> []) (file_lines t)))"

definition load_state :: "world \<Rightarrow> string list" where
  "load_state w =
     (case state_file w of
        Absent \<Rightarrow> []
      | Unreadable \<Rightarrow> []
      | Content state \<Rightarrow> (case state of None \<Rightarrow> [] | Some recent_posts \<Rightarrow> recent_posts))"

definition save_state :: "string list \<Rightarrow> world \<Rightarrow> world" where
  "save_state recent_posts w =
     (let recent_posts = slice_from (- 220) recent_posts
      in w\<lparr>state_file := Content (Some recent_posts),
            effects := effects w @ [WriteState]\<rparr>)"

definition write_scheduled_posts :: "post list \<Rightarrow> world \<Rightarrow> world" where
  "write_scheduled_posts posts w =
     w\<lparr>scheduled_posts_file := Content posts, effects := effects w @ [WriteScheduled]\<rparr>"

section \<open>The annual reset\<close>

text \<open>The loop of \<^verbatim>\<open>reset_annual_posts_if_new_year\<close>: the posts after it, and \<^verbatim>\<open>reset_count\<close>.\<close>

fun reset_loop :: "post list \<Rightarrow> post list \<times> nat" where
  "reset_loop [] = ([], 0)"
| "reset_loop (p # ps) =
     (let (ps', reset_count) = reset_loop ps
      in if get_posted p
         then (p\<lparr>posted_field := Some False, posted_at_field := None\<rparr> # ps', reset_count + 1)
         else (p # ps', reset_count))"

definition reset_annual_posts_if_new_year :: "env \<Rightarrow> world \<Rightarrow> world" where
  "reset_annual_posts_if_new_year e w =
     (if today_month e \<noteq> 1 \<or> today_day e \<noteq> 1 then w
      else
        (let (scheduled_posts, reset_count) = reset_loop (load_scheduled_posts w)
         in if reset_count > 0 then write_scheduled_posts scheduled_posts w else w))"

section \<open>Selecting and marking the date-anchored post\<close>

text \<open>The month-day of an entry: \<^verbatim>\<open>post_date[5:]\<close> when the date has at least 10 characters.\<close>

definition month_day_of :: "post \<Rightarrow> string option" where
  "month_day_of p =
     (let post_date = get_date p
      in if length post_date \<ge> 10 then Some (slice_from 5 post_date) else None)"

fun find_loop :: "string \<Rightarrow> post list \<Rightarrow> post option" where
  "find_loop md [] = None"
| "find_loop md (p # ps) =
     (if month_day_of p = Some md
      then (if get_posted p then find_loop md ps else Some p)
      else find_loop md ps)"

definition find_scheduled_post_for_today :: "env \<Rightarrow> world \<Rightarrow> post option" where
  "find_scheduled_post_for_today e w = find_loop (today_month_day e) (load_scheduled_posts w)"

definition mark_post :: "env \<Rightarrow> string \<Rightarrow> post \<Rightarrow> post" where
  "mark_post e post_month_day p =
     (if month_day_of p = Some post_month_day
      then p\<lparr>posted_field := Some True, posted_at_field := Some (now_isoformat e)\<rparr>
      else p)"

definition mark_scheduled_post_as_sent :: "env \<Rightarrow> string \<Rightarrow> world \<Rightarrow> world" where
  "mark_scheduled_post_as_sent e post_month_day w =
     write_scheduled_posts (map (mark_post e post_month_day) (load_scheduled_posts w)) w"

section \<open>Dispatch\<close>

definition authenticate :: "env \<Rightarrow> world \<Rightarrow> bool \<times> world" where
  "authenticate e w = (login_ok e, w\<lparr>effects := effects w @ [Login]\<rparr>)"

definition send_post :: "env \<Rightarrow> string \<Rightarrow> world \<Rightarrow> bool \<times> world" where
  "send_post e t w = (send_ok e t, w\<lparr>effects := effects w @ [SendPost t]\<rparr>)"

definition random_choice :: "env \<Rightarrow> 'a list \<Rightarrow> 'a" where
  "random_choice e xs = xs ! (random_draw e mod length xs)"

section \<open>One run\<close>

definition post_scheduled :: "env \<Rightarrow> post \<Rightarrow> world \<Rightarrow> bool \<times> world" where
  "post_scheduled e scheduled_post w =
     (let post_text = get_text scheduled_post;
          post_date = get_date scheduled_post;
          post_month_day = (if length post_date \<ge> 10 then slice_from 5 post_date else [])
      in if post_text = [] then (False, w)
         else
           (let (authenticated, w1) = authenticate e w
            in if \<not> authenticated then (False, w1)
               else
                 (let (sent, w2) = send_post e post_text w1
                  in if \<not> sent then (False, w2)
                     else (True, mark_scheduled_post_as_sent e post_month_day w2))))"

definition available_posts :: "string list \<Rightarrow> string list \<Rightarrow> string list" where
  "available_posts regular_posts recent_posts =
     filter (\<lambda>p. p \<notin> set recent_posts) regular_posts"

definition post_regular :: "env \<Rightarrow> world \<Rightarrow> bool \<times> world" where
  "post_regular e w =
     (let regular_posts = load_regular_posts w
      in if regular_posts = [] then (False, w)
         else
           (let recent_posts = load_state w;
                available = available_posts regular_posts recent_posts;
                (available, recent_posts) =
                   (if available = [] then (regular_posts, []) else (available, recent_posts));
                post_text = random_choice e available;
                (authenticated, w1) = authenticate e w
            in if \<not> authenticated then (False, w1)
               else
                 (let (sent, w2) = send_post e post_text w1
                  in if \<not> sent then (False, w2)
                     else (True, save_state (recent_posts @ [post_text]) w2))))"

text \<open>
  \<^verbatim>\<open>post_next\<close>: the reset, then the date-anchored branch (\<open>post_scheduled\<close>, the body of
  \<^verbatim>\<open>if scheduled_post:\<close>) or the rotation (\<open>post_regular\<close>, the rest of the function). An
  entry that was found has a date of 10 characters or more, so its dictionary is not
  empty and the test \<^verbatim>\<open>if scheduled_post:\<close> holds exactly when an entry was found.
\<close>

definition post_next :: "env \<Rightarrow> world \<Rightarrow> bool \<times> world" where
  "post_next e w0 =
     (let w = reset_annual_posts_if_new_year e w0
      in case find_scheduled_post_for_today e w of
           Some scheduled_post \<Rightarrow> post_scheduled e scheduled_post w
         | None \<Rightarrow> post_regular e w)"

text \<open>\<^verbatim>\<open>main\<close>: the exit status and the world it leaves.\<close>

definition missing :: "string option \<Rightarrow> bool" where
  "missing v = (case v of None \<Rightarrow> True | Some s \<Rightarrow> s = [])"

definition main :: "env \<Rightarrow> world \<Rightarrow> nat \<times> world" where
  "main e w =
     (if missing (bluesky_handle e) \<or> missing (bluesky_password e) then (1, w)
      else
        (let (success, w') = post_next e w
         in if success then (0, w') else (1, w')))"

section \<open>Concrete runs\<close>

text \<open>Small inputs on which the theorems below are instantiated.\<close>

definition example_env :: "nat \<Rightarrow> nat \<Rightarrow> bool \<Rightarrow> bool \<Rightarrow> env" where
  "example_env m d login sent =
     \<lparr>bluesky_handle = Some ''bot.example'', bluesky_password = Some ''app-password'',
      today_month = m, today_day = d, now_isoformat = ''2024-12-25T09:00:00'',
      login_ok = login, send_ok = (\<lambda>_. sent), random_draw = 0\<rparr>"

definition example_post :: "string \<Rightarrow> string \<Rightarrow> bool \<Rightarrow> post" where
  "example_post d t b =
     \<lparr>date_field = Some d, text_field = Some t, posted_field = Some b,
      posted_at_field = (if b then Some ''2023-12-25T09:00:00'' else None),
      other_fields = [(''tag'', ''holiday'')]\<rparr>"

definition example_world :: "post list \<Rightarrow> string \<Rightarrow> string list \<Rightarrow> world" where
  "example_world posts pool history =
     \<lparr>scheduled_posts_file = Content posts, regular_posts_file = Content pool,
      state_file = Content (Some history), effects = []\<rparr>"

section \<open>Slices and stripping\<close>

lemma slice_from_neg: "0 < k \<Longrightarrow> slice_from (- int k) xs = drop (length xs - k) xs"
  by (auto simp add: slice_from_def Let_def max_def nat_diff_distrib')

lemma lstrip_empty_iff: "lstrip s = [] \<longleftrightarrow> list_all is_space s"
  by (simp add: lstrip_def list_all_iff)

lemma rstrip_empty_iff: "rstrip s = [] \<longleftrightarrow> list_all is_space s"
  by (simp add: rstrip_def list_all_iff)

lemma lstrip_all_space: "list_all is_space (lstrip s) \<longleftrightarrow> list_all is_space s"
proof
  assume "list_all is_space (lstrip s)"
  then have "lstrip s = []"
    unfolding lstrip_def list_all_iff
    by (metis dropWhile_eq_Nil_conv dropWhile_idem)
  then show "list_all is_space s" by (simp add: lstrip_empty_iff)
next
  assume "list_all is_space s"
  then have "lstrip s = []" by (simp add: lstrip_empty_iff)
  then show "list_all is_space (lstrip s)" by simp
qed

lemma strip_empty_iff: "strip s = [] \<longleftrightarrow> list_all is_space s"
  by (simp add: strip_def rstrip_empty_iff lstrip_all_space)

text \<open>
  A stripped line that is not empty starts and ends with a character that is not a space.
\<close>

lemma strip_no_outer_space:
  assumes "strip s \<noteq> []"
  shows "\<not> is_space (hd (strip s)) \<and> \<not> is_space (last (strip s))"
proof -
  let ?l = "lstrip s"
  have ne: "dropWhile is_space (rev ?l) \<noteq> []"
    using assms by (simp add: strip_def rstrip_def)
  then have l: "\<not> is_space (hd (dropWhile is_space (rev ?l)))"
    by (rule hd_dropWhile)
  have lne: "?l \<noteq> []" using ne by auto
  then have h: "\<not> is_space (hd ?l)"
    unfolding lstrip_def by (rule hd_dropWhile)
  have last_eq: "last (strip s) = hd (dropWhile is_space (rev ?l))"
    using ne by (simp add: strip_def rstrip_def last_rev)
  obtain ys where ys: "rev ?l = ys @ [hd ?l]"
    using lne by (metis rev_is_Nil_conv snoc_eq_iff_butlast rev_rev_ident last_rev)
  have "dropWhile is_space (ys @ [hd ?l]) = dropWhile is_space ys @ [hd ?l]"
    using h by (induction ys) auto
  then have "strip s = hd ?l # rev (dropWhile is_space ys)"
    by (simp add: strip_def rstrip_def ys)
  then have "hd (strip s) = hd ?l" by simp
  with h l last_eq show ?thesis by simp
qed

section \<open>The reset loop and the reset\<close>

lemma reset_loop_fst:
  "fst (reset_loop ps) =
     map (\<lambda>p. if get_posted p then p\<lparr>posted_field := Some False, posted_at_field := None\<rparr> else p) ps"
  by (induction ps) (auto simp add: Let_def split: prod.splits)

lemma reset_loop_snd: "snd (reset_loop ps) = length (filter get_posted ps)"
  by (induction ps) (auto simp add: Let_def split: prod.splits)

lemma reset_loop_count_zero: "snd (reset_loop ps) = 0 \<longleftrightarrow> (\<forall>p\<in>set ps. \<not> get_posted p)"
  by (simp add: reset_loop_snd filter_empty_conv)

lemma reset_loop_unposted: "\<forall>p\<in>set ps. \<not> get_posted p \<Longrightarrow> fst (reset_loop ps) = ps"
  by (simp add: reset_loop_fst map_idI)

lemma reset_loop_result_unposted: "\<forall>p\<in>set (fst (reset_loop ps)). \<not> get_posted p"
  by (auto simp add: reset_loop_fst get_posted_def)

lemma reset_not_new_year:
  "today_month e \<noteq> 1 \<or> today_day e \<noteq> 1 \<Longrightarrow> reset_annual_posts_if_new_year e w = w"
  by (auto simp add: reset_annual_posts_if_new_year_def)

lemma reset_nothing_posted:
  "\<forall>p\<in>set (load_scheduled_posts w). \<not> get_posted p \<Longrightarrow> reset_annual_posts_if_new_year e w = w"
  using reset_loop_count_zero[of "load_scheduled_posts w"]
  by (auto simp add: reset_annual_posts_if_new_year_def split: prod.splits)

lemma reset_new_year_some_posted:
  assumes "today_month e = 1" "today_day e = 1" "\<exists>p\<in>set (load_scheduled_posts w). get_posted p"
  shows "reset_annual_posts_if_new_year e w =
           write_scheduled_posts (fst (reset_loop (load_scheduled_posts w))) w"
proof -
  have "snd (reset_loop (load_scheduled_posts w)) \<noteq> 0"
    using assms(3) by (simp add: reset_loop_count_zero)
  then show ?thesis
    using assms(1,2) by (auto simp add: reset_annual_posts_if_new_year_def split: prod.splits)
qed

lemma reset_cases:
  "reset_annual_posts_if_new_year e w = w
   \<or> (today_month e = 1 \<and> today_day e = 1 \<and> (\<exists>p\<in>set (load_scheduled_posts w). get_posted p)
      \<and> reset_annual_posts_if_new_year e w =
           write_scheduled_posts (fst (reset_loop (load_scheduled_posts w))) w)"
  using reset_not_new_year[of e w] reset_nothing_posted[of w e] reset_new_year_some_posted[of e w]
  by blast

lemma load_write_scheduled: "load_scheduled_posts (write_scheduled_posts ps w) = ps"
  by (simp add: load_scheduled_posts_def write_scheduled_posts_def)

lemma reset_load_new_year:
  assumes "today_month e = 1" "today_day e = 1"
  shows "load_scheduled_posts (reset_annual_posts_if_new_year e w) =
           fst (reset_loop (load_scheduled_posts w))"
proof (cases "\<exists>p\<in>set (load_scheduled_posts w). get_posted p")
  case True
  then show ?thesis
    using reset_new_year_some_posted[OF assms] by (simp add: load_write_scheduled)
next
  case False
  then show ?thesis
    using reset_nothing_posted[of w e] by (simp add: reset_loop_unposted)
qed

lemma reset_other_files:
  "regular_posts_file (reset_annual_posts_if_new_year e w) = regular_posts_file w
   \<and> state_file (reset_annual_posts_if_new_year e w) = state_file w"
  using reset_cases[of e w] by (auto simp add: write_scheduled_posts_def)

lemma reset_load_regular:
  "load_regular_posts (reset_annual_posts_if_new_year e w) = load_regular_posts w"
  by (simp add: load_regular_posts_def reset_other_files)

lemma reset_load_state: "load_state (reset_annual_posts_if_new_year e w) = load_state w"
  by (simp add: load_state_def reset_other_files)

lemma reset_effects_cases:
  "effects (reset_annual_posts_if_new_year e w) = effects w
   \<or> effects (reset_annual_posts_if_new_year e w) = effects w @ [WriteScheduled]"
  using reset_cases[of e w] by (auto simp add: write_scheduled_posts_def)

lemma reset_effects_sends:
  "SendPost t \<in> set (effects (reset_annual_posts_if_new_year e w)) \<longleftrightarrow> SendPost t \<in> set (effects w)"
  using reset_cases[of e w] by (auto simp add: write_scheduled_posts_def)

lemma reset_idem:
  "reset_annual_posts_if_new_year e (reset_annual_posts_if_new_year e w)
     = reset_annual_posts_if_new_year e w"
proof (cases "today_month e = 1 \<and> today_day e = 1")
  case True
  then have "load_scheduled_posts (reset_annual_posts_if_new_year e w) =
               fst (reset_loop (load_scheduled_posts w))"
    by (simp add: reset_load_new_year)
  then have "\<forall>p\<in>set (load_scheduled_posts (reset_annual_posts_if_new_year e w)). \<not> get_posted p"
    using reset_loop_result_unposted by simp
  then show ?thesis by (rule reset_nothing_posted)
next
  case False
  then show ?thesis by (simp add: reset_not_new_year)
qed

section \<open>The search loop and marking\<close>

lemma find_loop_find:
  "find_loop md ps = List.find (\<lambda>p. month_day_of p = Some md \<and> \<not> get_posted p) ps"
  by (induction ps) auto

lemma find_loop_Some_match:
  "find_loop md ps = Some p \<Longrightarrow> p \<in> set ps \<and> month_day_of p = Some md \<and> \<not> get_posted p"
  by (induction ps) (auto split: if_splits)

lemma found_month_day:
  assumes "find_scheduled_post_for_today e w = Some p"
  shows "(if length (get_date p) \<ge> 10 then slice_from 5 (get_date p) else []) = today_month_day e"
  using find_loop_Some_match[of "today_month_day e" "load_scheduled_posts w" p] assms
  by (auto simp add: find_scheduled_post_for_today_def month_day_of_def Let_def split: if_splits)

lemma found_in_list:
  assumes "find_scheduled_post_for_today e w = Some p"
  shows "\<exists>i<length (load_scheduled_posts w).
           load_scheduled_posts w ! i = p \<and> month_day_of p = Some (today_month_day e)
           \<and> \<not> get_posted p"
  using find_loop_Some_match[of "today_month_day e" "load_scheduled_posts w" p] assms
  by (auto simp add: find_scheduled_post_for_today_def in_set_conv_nth)

section \<open>The two branches of a run\<close>

text \<open>
  Each branch, written as the chain of its exits: nothing to send, a failed login, a failed
  send, and the successful send followed by the write.
\<close>

lemma random_choice_mem: "xs \<noteq> [] \<Longrightarrow> random_choice e xs \<in> set xs"
  by (simp add: random_choice_def)

lemma available_posts_subset: "set (available_posts P H) \<subseteq> set P"
  by (auto simp add: available_posts_def)

lemma chosen_in_pool:
  assumes "P \<noteq> []"
  shows "random_choice e (if available_posts P H = [] then P else available_posts P H) \<in> set P"
proof (cases "available_posts P H = []")
  case True
  then show ?thesis using assms by (simp add: random_choice_mem)
next
  case False
  then have "random_choice e (available_posts P H) \<in> set (available_posts P H)"
    by (rule random_choice_mem)
  then show ?thesis using False available_posts_subset[of P H] by auto
qed

lemma post_regular_unfold:
  "post_regular e w =
     (if load_regular_posts w = [] then (False, w)
      else if \<not> login_ok e then (False, w\<lparr>effects := effects w @ [Login]\<rparr>)
      else
        (let available = available_posts (load_regular_posts w) (load_state w);
             post_text = random_choice e (if available = [] then load_regular_posts w else available);
             recent_posts = (if available = [] then [] else load_state w)
         in if \<not> send_ok e post_text
            then (False, w\<lparr>effects := effects w @ [Login, SendPost post_text]\<rparr>)
            else (True, w\<lparr>state_file := Content (Some (slice_from (- 220) (recent_posts @ [post_text]))),
                         effects := effects w @ [Login, SendPost post_text, WriteState]\<rparr>)))"
  by (simp add: post_regular_def authenticate_def send_post_def save_state_def Let_def)

lemma post_scheduled_unfold:
  "post_scheduled e p w =
     (if get_text p = [] then (False, w)
      else if \<not> login_ok e then (False, w\<lparr>effects := effects w @ [Login]\<rparr>)
      else if \<not> send_ok e (get_text p)
        then (False, w\<lparr>effects := effects w @ [Login, SendPost (get_text p)]\<rparr>)
      else (True, w\<lparr>scheduled_posts_file :=
                        Content (map (mark_post e (if length (get_date p) \<ge> 10
                                                   then slice_from 5 (get_date p) else []))
                                   (load_scheduled_posts w)),
                     effects := effects w @ [Login, SendPost (get_text p), WriteScheduled]\<rparr>))"
  by (simp add: post_scheduled_def authenticate_def send_post_def Let_def
        mark_scheduled_post_as_sent_def write_scheduled_posts_def load_scheduled_posts_def)

lemma post_regular_scheduled_file:
  "scheduled_posts_file (snd (post_regular e w)) = scheduled_posts_file w"
  by (simp add: post_regular_unfold Let_def)

lemma post_regular_sends:
  assumes "SendPost t \<in> set (effects (snd (post_regular e w)))"
  shows "SendPost t \<in> set (effects w) \<or> t \<in> set (load_regular_posts w)"
proof (cases "load_regular_posts w = []")
  case True
  then show ?thesis using assms by (simp add: post_regular_unfold)
next
  case False
  from chosen_in_pool[OF False, of e "load_state w"] assms False
  show ?thesis
    by (auto simp add: post_regular_unfold Let_def split: if_splits)
qed

lemma post_regular_failure:
  assumes "fst (post_regular e w) = False"
  shows "scheduled_posts_file (snd (post_regular e w)) = scheduled_posts_file w
    \<and> regular_posts_file (snd (post_regular e w)) = regular_posts_file w
    \<and> state_file (snd (post_regular e w)) = state_file w
    \<and> (\<exists>evs. effects (snd (post_regular e w)) = effects w @ evs
            \<and> WriteScheduled \<notin> set evs \<and> WriteState \<notin> set evs)"
  using assms by (auto simp add: post_regular_unfold Let_def split: if_splits)

lemma post_scheduled_failure:
  assumes "fst (post_scheduled e p w) = False"
  shows "scheduled_posts_file (snd (post_scheduled e p w)) = scheduled_posts_file w
    \<and> regular_posts_file (snd (post_scheduled e p w)) = regular_posts_file w
    \<and> state_file (snd (post_scheduled e p w)) = state_file w
    \<and> (\<exists>evs. effects (snd (post_scheduled e p w)) = effects w @ evs
            \<and> WriteScheduled \<notin> set evs \<and> WriteState \<notin> set evs)"
  using assms by (auto simp add: post_scheduled_unfold split: if_splits)

lemma post_regular_dispatch_failure:
  "\<not> login_ok e \<or> (\<forall>t. \<not> send_ok e t) \<Longrightarrow> fst (post_regular e w) = False"
  by (auto simp add: post_regular_unfold Let_def)

lemma post_scheduled_dispatch_failure:
  "\<not> login_ok e \<or> (\<forall>t. \<not> send_ok e t) \<Longrightarrow> fst (post_scheduled e p w) = False"
  by (auto simp add: post_scheduled_unfold)

lemma post_next_not_found:
  "find_scheduled_post_for_today e (reset_annual_posts_if_new_year e w) = None \<Longrightarrow>
     post_next e w = post_regular e (reset_annual_posts_if_new_year e w)"
  by (simp add: post_next_def Let_def)

lemma post_next_found:
  "find_scheduled_post_for_today e (reset_annual_posts_if_new_year e w) = Some p \<Longrightarrow>
     post_next e w = post_scheduled e p (reset_annual_posts_if_new_year e w)"
  by (simp add: post_next_def Let_def)

lemma post_next_cases:
  "post_next e w = post_regular e (reset_annual_posts_if_new_year e w)
   \<or> (\<exists>p. post_next e w = post_scheduled e p (reset_annual_posts_if_new_year e w))"
  by (cases "find_scheduled_post_for_today e (reset_annual_posts_if_new_year e w)")
     (auto simp add: post_next_def Let_def)

section \<open>Evaluating the concrete runs\<close>

lemma example_today: "today_month_day (example_env 12 25 l s) = ''12-25''"
  by (simp add: today_month_day_def two_digits_def digit_char_def example_env_def)

lemma example_month_day:
  "month_day_of (example_post ''2022-12-25'' t b) = Some ''12-25''"
  "month_day_of (example_post ''2023-12-25'' t b) = Some ''12-25''"
  "month_day_of (example_post ''2024-07-04'' t b) = Some ''07-04''"
  by (simp_all add: month_day_of_def get_date_def slice_from_def example_post_def)

lemma example_posted: "get_posted (example_post d t b) = b"
  by (simp add: get_posted_def example_post_def)

lemma example_load: "load_scheduled_posts (example_world ps pool h) = ps"
  by (simp add: load_scheduled_posts_def example_world_def)

lemma example_pool:
  "load_regular_posts (example_world ps ''a\<newline>b\<newline>'' h) = [''a'', ''b'']"
  "load_regular_posts (example_world ps ''a\<newline>b\<newline>c\<newline>'' h) = [''a'', ''b'', ''c'']"
  "load_regular_posts (example_world ps ''hello'' h) = [''hello'']"
  "load_regular_posts (example_world ps [] h) = []"
  by (simp_all add: load_regular_posts_def example_world_def file_lines_def
        is_space_def strip_def lstrip_def rstrip_def)

lemma example_history: "load_state (example_world ps pool h) = h"
  by (simp add: load_state_def example_world_def)

lemma example_no_entries:
  "find_scheduled_post_for_today e (reset_annual_posts_if_new_year e (example_world [] pool h)) = None"
proof -
  have "reset_annual_posts_if_new_year e (example_world [] pool h) = example_world [] pool h"
    by (rule reset_nothing_posted) (simp add: example_load)
  then show ?thesis
    by (simp add: find_scheduled_post_for_today_def example_load)
qed

lemmas example_run_defs =
  post_next_def post_scheduled_def post_regular_def reset_annual_posts_if_new_year_def
  find_scheduled_post_for_today_def authenticate_def send_post_def load_scheduled_posts_def
  load_state_def save_state_def mark_scheduled_post_as_sent_def mark_post_def
  write_scheduled_posts_def month_day_of_def get_date_def get_posted_def get_text_def
  slice_from_def today_month_day_def two_digits_def digit_char_def available_posts_def
  random_choice_def main_def missing_def load_regular_posts_def file_lines_def
  is_space_def strip_def lstrip_def rstrip_def
  example_env_def example_world_def example_post_def Let_def

section \<open>A failed dispatch\<close>

text \<open>
  Claim C1, as the code has it. The reset of January 1st runs before the selection and
  writes the date-anchored file when some entry was posted, whatever happens afterwards.
  A run whose login fails, or whose send fails, fails; and a run that fails leaves the
  three files as they are after that reset and writes nothing more: the history file and
  the pool file are those of the start of the run, and so is the date-anchored file on
  every day other than January 1st, and on January 1st when no entry was posted.
\<close>

theorem failed_dispatch_keeps_files_after_reset:
  "(\<not> login_ok e \<or> (\<forall>t. \<not> send_ok e t) \<longrightarrow> fst (post_next e w) = False)
   \<and> (fst (post_next e w) = False \<longrightarrow>
        scheduled_posts_file (snd (post_next e w))
           = scheduled_posts_file (reset_annual_posts_if_new_year e w)
        \<and> regular_posts_file (snd (post_next e w)) = regular_posts_file w
        \<and> state_file (snd (post_next e w)) = state_file w
        \<and> (\<exists>evs. effects (snd (post_next e w)) = effects (reset_annual_posts_if_new_year e w) @ evs
                \<and> WriteScheduled \<notin> set evs \<and> WriteState \<notin> set evs)
        \<and> (today_month e \<noteq> 1 \<or> today_day e \<noteq> 1
              \<or> (\<forall>p\<in>set (load_scheduled_posts w). \<not> get_posted p) \<longrightarrow>
            scheduled_posts_file (snd (post_next e w)) = scheduled_posts_file w
            \<and> (\<exists>evs. effects (snd (post_next e w)) = effects w @ evs
                  \<and> WriteScheduled \<notin> set evs \<and> WriteState \<notin> set evs)))"
proof -
  let ?r = "reset_annual_posts_if_new_year e w"
  have fails: "fst (post_next e w) = False" if "\<not> login_ok e \<or> (\<forall>t. \<not> send_ok e t)"
    using post_next_cases[of e w] that
      post_regular_dispatch_failure[of e "reset_annual_posts_if_new_year e w"]
      post_scheduled_dispatch_failure[of e _ "reset_annual_posts_if_new_year e w"]
    by metis
  have kept: "scheduled_posts_file (snd (post_next e w)) = scheduled_posts_file ?r
    \<and> regular_posts_file (snd (post_next e w)) = regular_posts_file ?r
    \<and> state_file (snd (post_next e w)) = state_file ?r
    \<and> (\<exists>evs. effects (snd (post_next e w)) = effects ?r @ evs
            \<and> WriteScheduled \<notin> set evs \<and> WriteState \<notin> set evs)"
    if f: "fst (post_next e w) = False"
  proof -
    from post_next_cases[of e w] show ?thesis
    proof
      assume c: "post_next e w = post_regular e ?r"
      then have "fst (post_regular e ?r) = False" using f by simp
      from post_regular_failure[OF this] show ?thesis by (simp add: c)
    next
      assume "\<exists>p. post_next e w = post_scheduled e p ?r"
      then obtain p where c: "post_next e w = post_scheduled e p ?r" by blast
      then have "fst (post_scheduled e p ?r) = False" using f by simp
      from post_scheduled_failure[OF this] show ?thesis by (simp add: c)
    qed
  qed
  have same: "?r = w"
    if "today_month e \<noteq> 1 \<or> today_day e \<noteq> 1
          \<or> (\<forall>p\<in>set (load_scheduled_posts w). \<not> get_posted p)"
    using that reset_not_new_year[of e w] reset_nothing_posted[of w e] by blast
  show ?thesis
    using fails kept same by (auto simp add: reset_other_files)
qed

text \<open>
  On January 1st, with one posted entry for that day and a login that fails: the entry is
  reset, selected, the login is tried, the run fails, and the date-anchored file differs
  from the one the run started with.
\<close>

theorem failed_dispatch_mutates_on_new_year_counterexample:
  "fst (post_next (example_env 1 1 False True)
          (example_world [example_post ''2020-01-01'' ''Happy New Year'' True] ''hello'' [])) = False
   \<and> effects (snd (post_next (example_env 1 1 False True)
          (example_world [example_post ''2020-01-01'' ''Happy New Year'' True] ''hello'' [])))
       = [WriteScheduled, Login]
   \<and> scheduled_posts_file (snd (post_next (example_env 1 1 False True)
          (example_world [example_post ''2020-01-01'' ''Happy New Year'' True] ''hello'' [])))
       = Content [example_post ''2020-01-01'' ''Happy New Year'' False]
   \<and> scheduled_posts_file (snd (post_next (example_env 1 1 False True)
          (example_world [example_post ''2020-01-01'' ''Happy New Year'' True] ''hello'' [])))
       \<noteq> scheduled_posts_file
            (example_world [example_post ''2020-01-01'' ''Happy New Year'' True] ''hello'' [])"
  by (simp add: post_next_def post_scheduled_def reset_annual_posts_if_new_year_def
        find_scheduled_post_for_today_def authenticate_def load_scheduled_posts_def
        write_scheduled_posts_def month_day_of_def get_date_def get_posted_def get_text_def
        slice_from_def today_month_day_def two_digits_def digit_char_def
        example_env_def example_world_def example_post_def Let_def)

theorem failed_dispatch_keeps_files_after_reset_witness:
  "scheduled_posts_file (snd (post_next (example_env 12 25 True False)
      (example_world [example_post ''2023-12-25'' ''Merry Xmas'' False] ''hello'' [''hello''])))
     = Content [example_post ''2023-12-25'' ''Merry Xmas'' False]
   \<and> state_file (snd (post_next (example_env 12 25 True False)
      (example_world [example_post ''2023-12-25'' ''Merry Xmas'' False] ''hello'' [''hello''])))
     = Content (Some [''hello''])"
proof -
  let ?e = "example_env 12 25 True False"
  let ?w = "example_world [example_post ''2023-12-25'' ''Merry Xmas'' False] ''hello'' [''hello'']"
  have h: "\<not> login_ok ?e \<or> (\<forall>t. \<not> send_ok ?e t)"
    by (simp add: example_env_def)
  have d: "today_month ?e \<noteq> 1" by (simp add: example_env_def)
  from failed_dispatch_keeps_files_after_reset[of ?e ?w] h d
  have "scheduled_posts_file (snd (post_next ?e ?w)) = scheduled_posts_file ?w
        \<and> state_file (snd (post_next ?e ?w)) = state_file ?w"
    by blast
  then show ?thesis by (simp add: example_world_def)
qed

section \<open>Marking the date-anchored post that was sent\<close>

text \<open>
  Claim C2, as the code has it. \<^verbatim>\<open>mark_scheduled_post_as_sent\<close> receives the month-day of
  the entry that was sent, not the entry. After a successful send of the selected entry,
  every entry of the file whose month-day is today's has \<^verbatim>\<open>posted\<close> true and \<^verbatim>\<open>posted_at\<close>
  stamped, the selected entry among them, and every other entry is written back as the
  reset left it (as the run found it, on every day other than January 1st).
\<close>

theorem sent_scheduled_post_marks_its_month_day:
  assumes "find_scheduled_post_for_today e (reset_annual_posts_if_new_year e w) = Some p"
    and "get_text p \<noteq> []"
    and "login_ok e"
    and "send_ok e (get_text p)"
  shows "fst (post_next e w) = True
    \<and> length (load_scheduled_posts (snd (post_next e w)))
        = length (load_scheduled_posts (reset_annual_posts_if_new_year e w))
    \<and> (\<forall>i < length (load_scheduled_posts (reset_annual_posts_if_new_year e w)).
          load_scheduled_posts (snd (post_next e w)) ! i =
            (if month_day_of (load_scheduled_posts (reset_annual_posts_if_new_year e w) ! i)
                  = Some (today_month_day e)
             then (load_scheduled_posts (reset_annual_posts_if_new_year e w) ! i)
                    \<lparr>posted_field := Some True, posted_at_field := Some (now_isoformat e)\<rparr>
             else load_scheduled_posts (reset_annual_posts_if_new_year e w) ! i))
    \<and> (\<exists>i < length (load_scheduled_posts (reset_annual_posts_if_new_year e w)).
          load_scheduled_posts (reset_annual_posts_if_new_year e w) ! i = p
          \<and> load_scheduled_posts (snd (post_next e w)) ! i =
              p\<lparr>posted_field := Some True, posted_at_field := Some (now_isoformat e)\<rparr>)
    \<and> (today_month e \<noteq> 1 \<or> today_day e \<noteq> 1 \<longrightarrow> reset_annual_posts_if_new_year e w = w)"
proof -
  let ?r = "reset_annual_posts_if_new_year e w"
  let ?md = "today_month_day e"
  have run: "post_next e w =
      (True, ?r\<lparr>scheduled_posts_file := Content (map (mark_post e ?md) (load_scheduled_posts ?r)),
                effects := effects ?r @ [Login, SendPost (get_text p), WriteScheduled]\<rparr>)"
    using assms(2,3,4) found_month_day[OF assms(1)]
    by (simp add: post_next_found[OF assms(1)] post_scheduled_unfold)
  have l: "load_scheduled_posts (snd (post_next e w)) = map (mark_post e ?md) (load_scheduled_posts ?r)"
    by (simp add: run load_scheduled_posts_def)
  have a: "fst (post_next e w) = True" by (simp add: run)
  have b: "length (load_scheduled_posts (snd (post_next e w))) = length (load_scheduled_posts ?r)"
    by (simp add: l)
  have c: "\<forall>i < length (load_scheduled_posts ?r).
          load_scheduled_posts (snd (post_next e w)) ! i =
            (if month_day_of (load_scheduled_posts ?r ! i) = Some ?md
             then (load_scheduled_posts ?r ! i)
                    \<lparr>posted_field := Some True, posted_at_field := Some (now_isoformat e)\<rparr>
             else load_scheduled_posts ?r ! i)"
    by (simp add: l mark_post_def)
  obtain i where i: "i < length (load_scheduled_posts ?r)" "load_scheduled_posts ?r ! i = p"
    "month_day_of p = Some ?md"
    using found_in_list[OF assms(1)] by blast
  then have "load_scheduled_posts (snd (post_next e w)) ! i =
               p\<lparr>posted_field := Some True, posted_at_field := Some (now_isoformat e)\<rparr>"
    using c by simp
  then have d: "\<exists>i < length (load_scheduled_posts ?r).
          load_scheduled_posts ?r ! i = p
          \<and> load_scheduled_posts (snd (post_next e w)) ! i =
              p\<lparr>posted_field := Some True, posted_at_field := Some (now_isoformat e)\<rparr>"
    using i by blast
  have f: "today_month e \<noteq> 1 \<or> today_day e \<noteq> 1 \<longrightarrow> ?r = w"
    using reset_not_new_year[of e w] by blast
  show ?thesis using a b c d f by blast
qed

text \<open>
  Two unposted entries for December 25th of different years: the first is selected and
  sent, and the second, which was not sent, is marked and stamped as well.
\<close>

theorem sent_scheduled_post_marks_duplicates_counterexample:
  "find_scheduled_post_for_today (example_env 12 25 True True)
      (example_world [example_post ''2023-12-25'' ''Merry Xmas'' False,
                      example_post ''2022-12-25'' ''Another'' False] ''hello'' [])
     = Some (example_post ''2023-12-25'' ''Merry Xmas'' False)
   \<and> post_next (example_env 12 25 True True)
      (example_world [example_post ''2023-12-25'' ''Merry Xmas'' False,
                      example_post ''2022-12-25'' ''Another'' False] ''hello'' [])
     = (True,
        \<lparr>scheduled_posts_file = Content
           [(example_post ''2023-12-25'' ''Merry Xmas'' False)
              \<lparr>posted_field := Some True, posted_at_field := Some ''2024-12-25T09:00:00''\<rparr>,
            (example_post ''2022-12-25'' ''Another'' False)
              \<lparr>posted_field := Some True, posted_at_field := Some ''2024-12-25T09:00:00''\<rparr>],
         regular_posts_file = Content ''hello'',
         state_file = Content (Some []),
         effects = [Login, SendPost ''Merry Xmas'', WriteScheduled]\<rparr>)
   \<and> load_scheduled_posts (snd (post_next (example_env 12 25 True True)
      (example_world [example_post ''2023-12-25'' ''Merry Xmas'' False,
                      example_post ''2022-12-25'' ''Another'' False] ''hello'' []))) ! 1
     \<noteq> example_post ''2022-12-25'' ''Another'' False"
  by (simp add: example_run_defs)

theorem sent_scheduled_post_marks_its_month_day_witness:
  "load_scheduled_posts (snd (post_next (example_env 12 25 True True)
      (example_world [example_post ''2024-07-04'' ''Fireworks'' False,
                      example_post ''2023-12-25'' ''Merry Xmas'' False] ''hello'' []))) ! 0
     = example_post ''2024-07-04'' ''Fireworks'' False
   \<and> load_scheduled_posts (snd (post_next (example_env 12 25 True True)
      (example_world [example_post ''2024-07-04'' ''Fireworks'' False,
                      example_post ''2023-12-25'' ''Merry Xmas'' False] ''hello'' []))) ! 1
     = (example_post ''2023-12-25'' ''Merry Xmas'' False)
          \<lparr>posted_field := Some True, posted_at_field := Some ''2024-12-25T09:00:00''\<rparr>"
proof -
  let ?e = "example_env 12 25 True True"
  let ?ps = "[example_post ''2024-07-04'' ''Fireworks'' False,
              example_post ''2023-12-25'' ''Merry Xmas'' False]"
  let ?w = "example_world ?ps ''hello'' []"
  let ?p = "example_post ''2023-12-25'' ''Merry Xmas'' False"
  have r: "reset_annual_posts_if_new_year ?e ?w = ?w"
    by (simp add: reset_annual_posts_if_new_year_def example_env_def)
  have h1: "find_scheduled_post_for_today ?e (reset_annual_posts_if_new_year ?e ?w) = Some ?p"
    unfolding r
    by (simp add: find_scheduled_post_for_today_def example_load example_today
          example_month_day example_posted)
  have h2: "get_text ?p \<noteq> []" by (simp add: get_text_def example_post_def)
  have h3: "login_ok ?e" by (simp add: example_env_def)
  have h4: "send_ok ?e (get_text ?p)" by (simp add: example_env_def)
  have n: "now_isoformat ?e = ''2024-12-25T09:00:00''" by (simp add: example_env_def)
  from sent_scheduled_post_marks_its_month_day[OF h1 h2 h3 h4]
  have "\<forall>i < length ?ps.
          load_scheduled_posts (snd (post_next ?e ?w)) ! i =
            (if month_day_of (?ps ! i) = Some ''12-25''
             then (?ps ! i)\<lparr>posted_field := Some True, posted_at_field := Some ''2024-12-25T09:00:00''\<rparr>
             else ?ps ! i)"
    unfolding r example_load example_today n by blast
  then show ?thesis
    by (simp add: example_month_day)
qed

section \<open>The selector of the date-anchored post\<close>

lemma post_regular_effects:
  assumes "load_regular_posts w \<noteq> []"
  shows "effects (snd (post_regular e w)) =
           effects w @
             (let available = available_posts (load_regular_posts w) (load_state w);
                  chosen = random_choice e
                     (if available = [] then load_regular_posts w else available)
              in if \<not> login_ok e then [Login]
                 else if \<not> send_ok e chosen then [Login, SendPost chosen]
                 else [Login, SendPost chosen, WriteState])
    \<and> fst (post_regular e w) =
          (login_ok e \<and>
           send_ok e (random_choice e
              (if available_posts (load_regular_posts w) (load_state w) = []
               then load_regular_posts w
               else available_posts (load_regular_posts w) (load_state w))))"
  using assms by (simp add: post_regular_unfold Let_def)

text \<open>
  Claim C3, as the code has it. \<^verbatim>\<open>find_scheduled_post_for_today\<close> returns the first entry,
  in the order of the list it reads, whose month-day equals today's and which is not
  posted; entries of today that are posted are passed over. The run gives the selector
  the file as the reset left it. When the selector finds nothing there, the run does the
  rotation: with an empty pool it fails at once; otherwise it tries the login, sends the
  text drawn from the pool, and writes the history after a successful send; the
  date-anchored file is not written again. On every day other than January 1st the file
  the selector reads is the one the run started with, so a posted entry of today is not
  sent again.
\<close>

theorem find_scheduled_post_first_unposted_match:
  "(find_scheduled_post_for_today e w = None \<longleftrightarrow>
      (\<forall>p\<in>set (load_scheduled_posts w).
          \<not> (month_day_of p = Some (today_month_day e) \<and> \<not> get_posted p)))
   \<and> (find_scheduled_post_for_today e w = Some p \<longleftrightarrow>
        (\<exists>i<length (load_scheduled_posts w).
            load_scheduled_posts w ! i = p
            \<and> month_day_of p = Some (today_month_day e) \<and> \<not> get_posted p
            \<and> (\<forall>j<i. \<not> (month_day_of (load_scheduled_posts w ! j) = Some (today_month_day e)
                          \<and> \<not> get_posted (load_scheduled_posts w ! j)))))
   \<and> (find_scheduled_post_for_today e (reset_annual_posts_if_new_year e w0) = None \<longrightarrow>
        post_next e w0 = post_regular e (reset_annual_posts_if_new_year e w0)
        \<and> scheduled_posts_file (snd (post_next e w0))
          = scheduled_posts_file (reset_annual_posts_if_new_year e w0)
        \<and> (\<forall>t. SendPost t \<in> set (effects (snd (post_next e w0))) \<longrightarrow>
                SendPost t \<in> set (effects w0) \<or> t \<in> set (load_regular_posts w0))
        \<and> (load_regular_posts w0 = [] \<longrightarrow>
              post_next e w0 = (False, reset_annual_posts_if_new_year e w0))
        \<and> (load_regular_posts w0 \<noteq> [] \<longrightarrow>
             (let available = available_posts (load_regular_posts w0) (load_state w0);
                  chosen = random_choice e
                     (if available = [] then load_regular_posts w0 else available)
              in chosen \<in> set (load_regular_posts w0)
                 \<and> fst (post_next e w0) = (login_ok e \<and> send_ok e chosen)
                 \<and> effects (snd (post_next e w0)) =
                     effects (reset_annual_posts_if_new_year e w0) @
                       (if \<not> login_ok e then [Login]
                        else if \<not> send_ok e chosen then [Login, SendPost chosen]
                        else [Login, SendPost chosen, WriteState]))))
   \<and> ((today_month e \<noteq> 1 \<or> today_day e \<noteq> 1)
        \<and> find_scheduled_post_for_today e w0 = None \<longrightarrow>
        reset_annual_posts_if_new_year e w0 = w0
        \<and> post_next e w0 = post_regular e w0
        \<and> scheduled_posts_file (snd (post_next e w0)) = scheduled_posts_file w0)"
proof -
  let ?P = "\<lambda>p. month_day_of p = Some (today_month_day e) \<and> \<not> get_posted p"
  let ?r = "reset_annual_posts_if_new_year e w0"
  have f: "find_scheduled_post_for_today e w = List.find ?P (load_scheduled_posts w)"
    by (simp add: find_scheduled_post_for_today_def find_loop_find)
  have a: "find_scheduled_post_for_today e w = None \<longleftrightarrow>
             (\<forall>p\<in>set (load_scheduled_posts w). \<not> ?P p)"
    unfolding f find_None_iff by blast
  have b: "find_scheduled_post_for_today e w = Some p \<longleftrightarrow>
        (\<exists>i<length (load_scheduled_posts w).
            load_scheduled_posts w ! i = p \<and> ?P p
            \<and> (\<forall>j<i. \<not> ?P (load_scheduled_posts w ! j)))"
    unfolding f find_Some_iff by blast
  have c1: "post_next e w0 = post_regular e ?r
        \<and> scheduled_posts_file (snd (post_next e w0)) = scheduled_posts_file ?r
        \<and> (\<forall>t. SendPost t \<in> set (effects (snd (post_next e w0))) \<longrightarrow>
                SendPost t \<in> set (effects w0) \<or> t \<in> set (load_regular_posts w0))"
    if n: "find_scheduled_post_for_today e ?r = None"
    using post_regular_sends[of _ e ?r]
    by (auto simp add: post_next_not_found[OF n] post_regular_scheduled_file
          reset_effects_sends reset_load_regular)
  have c2: "post_next e w0 = (False, ?r)"
    if n: "find_scheduled_post_for_today e ?r = None" and "load_regular_posts w0 = []"
    using that(2)
    by (simp add: post_next_not_found[OF n] post_regular_unfold reset_load_regular)
  have c3: "(let available = available_posts (load_regular_posts w0) (load_state w0);
                  chosen = random_choice e
                     (if available = [] then load_regular_posts w0 else available)
              in chosen \<in> set (load_regular_posts w0)
                 \<and> fst (post_next e w0) = (login_ok e \<and> send_ok e chosen)
                 \<and> effects (snd (post_next e w0)) =
                     effects ?r @
                       (if \<not> login_ok e then [Login]
                        else if \<not> send_ok e chosen then [Login, SendPost chosen]
                        else [Login, SendPost chosen, WriteState]))"
    if n: "find_scheduled_post_for_today e ?r = None" and ne: "load_regular_posts w0 \<noteq> []"
  proof -
    have ne': "load_regular_posts ?r \<noteq> []" using ne by (simp add: reset_load_regular)
    show ?thesis
      using post_regular_effects[OF ne', of e] chosen_in_pool[OF ne, of e "load_state w0"]
      by (simp add: post_next_not_found[OF n] reset_load_regular reset_load_state Let_def)
  qed
  have d: "?r = w0 \<and> post_next e w0 = post_regular e w0
        \<and> scheduled_posts_file (snd (post_next e w0)) = scheduled_posts_file w0"
    if "(today_month e \<noteq> 1 \<or> today_day e \<noteq> 1) \<and> find_scheduled_post_for_today e w0 = None"
  proof -
    have r: "?r = w0" using that reset_not_new_year[of e w0] by blast
    then have n: "find_scheduled_post_for_today e ?r = None" using that by simp
    show ?thesis
      using post_next_not_found[OF n] r by (simp add: post_regular_scheduled_file)
  qed
  show ?thesis using a b c1 c2 c3 d by blast
qed

text \<open>
  On January 1st, with one posted entry for that day: the selector finds nothing in the
  file the run starts with, yet the run resets the entry, sends it and leaves the history
  alone; a second run on the same day resets and sends it again.
\<close>

theorem posted_entry_sent_again_on_new_year_counterexample:
  "find_scheduled_post_for_today (example_env 1 1 True True)
      (example_world [example_post ''2020-01-01'' ''Happy New Year'' True] ''hello'' []) = None
   \<and> fst (post_next (example_env 1 1 True True)
      (example_world [example_post ''2020-01-01'' ''Happy New Year'' True] ''hello'' [])) = True
   \<and> effects (snd (post_next (example_env 1 1 True True)
      (example_world [example_post ''2020-01-01'' ''Happy New Year'' True] ''hello'' [])))
     = [WriteScheduled, Login, SendPost ''Happy New Year'', WriteScheduled]
   \<and> state_file (snd (post_next (example_env 1 1 True True)
      (example_world [example_post ''2020-01-01'' ''Happy New Year'' True] ''hello'' [])))
     = Content (Some [])
   \<and> effects (snd (post_next (example_env 1 1 True True)
        (snd (post_next (example_env 1 1 True True)
          (example_world [example_post ''2020-01-01'' ''Happy New Year'' True] ''hello'' [])))))
     = [WriteScheduled, Login, SendPost ''Happy New Year'', WriteScheduled,
        WriteScheduled, Login, SendPost ''Happy New Year'', WriteScheduled]"
  by (simp add: example_run_defs)

theorem find_scheduled_post_first_unposted_match_witness:
  "find_scheduled_post_for_today (example_env 12 25 True True)
      (example_world [example_post ''2022-12-25'' ''Old greeting'' True,
                      example_post ''2024-07-04'' ''Fireworks'' False,
                      example_post ''2023-12-25'' ''Merry Xmas'' False,
                      example_post ''2022-12-25'' ''Another'' False] [] [])
     = Some (example_post ''2023-12-25'' ''Merry Xmas'' False)
   \<and> find_scheduled_post_for_today (example_env 12 25 True True)
      (example_world [example_post ''2022-12-25'' ''Old greeting'' True] ''hello'' []) = None
   \<and> scheduled_posts_file (snd (post_next (example_env 12 25 True True)
        (example_world [example_post ''2022-12-25'' ''Old greeting'' True] ''hello'' [])))
     = Content [example_post ''2022-12-25'' ''Old greeting'' True]
   \<and> fst (post_next (example_env 12 25 True True)
        (example_world [example_post ''2022-12-25'' ''Old greeting'' True] ''hello'' [])) = True
   \<and> effects (snd (post_next (example_env 12 25 True True)
        (example_world [example_post ''2022-12-25'' ''Old greeting'' True] ''hello'' [])))
     = [Login, SendPost ''hello'', WriteState]"
proof -
  let ?e = "example_env 12 25 True True"
  let ?ps = "[example_post ''2022-12-25'' ''Old greeting'' True,
              example_post ''2024-07-04'' ''Fireworks'' False,
              example_post ''2023-12-25'' ''Merry Xmas'' False,
              example_post ''2022-12-25'' ''Another'' False]"
  let ?w = "example_world ?ps [] []"
  let ?x = "example_post ''2023-12-25'' ''Merry Xmas'' False"
  let ?v = "example_world [example_post ''2022-12-25'' ''Old greeting'' True] ''hello'' []"
  have "\<exists>i<length (load_scheduled_posts ?w).
            load_scheduled_posts ?w ! i = ?x
            \<and> month_day_of ?x = Some (today_month_day ?e) \<and> \<not> get_posted ?x
            \<and> (\<forall>j<i. \<not> (month_day_of (load_scheduled_posts ?w ! j) = Some (today_month_day ?e)
                          \<and> \<not> get_posted (load_scheduled_posts ?w ! j)))"
    by (rule exI[of _ 2])
       (simp add: example_load example_today example_month_day example_posted
          less_Suc_eq numeral_2_eq_2)
  then have a: "find_scheduled_post_for_today ?e ?w = Some ?x"
    using find_scheduled_post_first_unposted_match[of ?e ?w ?x ?v] by blast
  have "\<forall>p\<in>set (load_scheduled_posts ?v).
          \<not> (month_day_of p = Some (today_month_day ?e) \<and> \<not> get_posted p)"
    by (simp add: example_load example_posted)
  then have b: "find_scheduled_post_for_today ?e ?v = None"
    using find_scheduled_post_first_unposted_match[of ?e ?v ?x ?v] by blast
  have d: "today_month ?e \<noteq> 1" by (simp add: example_env_def)
  from find_scheduled_post_first_unposted_match[of ?e ?v ?x ?v] b d
  have r: "reset_annual_posts_if_new_year ?e ?v = ?v"
    and s: "scheduled_posts_file (snd (post_next ?e ?v)) = scheduled_posts_file ?v"
    by blast+
  have c: "scheduled_posts_file (snd (post_next ?e ?v))
                  = Content [example_post ''2022-12-25'' ''Old greeting'' True]"
    using s by (simp add: example_world_def)
  have pool: "load_regular_posts ?v = [''hello'']" by (simp add: example_pool)
  have hist: "load_state ?v = []" by (simp add: example_history)
  have ch: "random_choice ?e [''hello''] = ''hello''" by (simp add: random_choice_def)
  have ok: "login_ok ?e \<and> send_ok ?e ''hello''" by (simp add: example_env_def)
  have ef: "effects ?v = []" by (simp add: example_world_def)
  have n: "find_scheduled_post_for_today ?e (reset_annual_posts_if_new_year ?e ?v) = None"
    using b r by simp
  note t = find_scheduled_post_first_unposted_match[of ?e ?v ?x ?v,
      THEN conjunct2, THEN conjunct2, THEN conjunct1, THEN mp, OF n]
  note u = t[THEN conjunct2, THEN conjunct2, THEN conjunct2, THEN conjunct2]
  have "fst (post_next ?e ?v) = True
        \<and> effects (snd (post_next ?e ?v)) = [Login, SendPost ''hello'', WriteState]"
    using u ok
    by (simp add: pool hist ch ef r available_posts_def Let_def)
  then show ?thesis using a b c by simp
qed

section \<open>The annual reset on January 1st\<close>

text \<open>
  Claim C4. On any day other than January 1st the reset does nothing. On January 1st it
  turns \<^verbatim>\<open>posted\<close> to false and removes \<^verbatim>\<open>posted_at\<close> in every entry that was posted, leaves
  every other entry as it is, writes the file when some entry was posted and only then,
  and a second reset right after the first changes nothing.
\<close>

theorem annual_reset_on_new_year:
  "(today_month e \<noteq> 1 \<or> today_day e \<noteq> 1 \<longrightarrow> reset_annual_posts_if_new_year e w = w)
   \<and> (today_month e = 1 \<and> today_day e = 1 \<longrightarrow>
        length (load_scheduled_posts (reset_annual_posts_if_new_year e w))
          = length (load_scheduled_posts w)
        \<and> (\<forall>i < length (load_scheduled_posts w).
              load_scheduled_posts (reset_annual_posts_if_new_year e w) ! i =
                (if get_posted (load_scheduled_posts w ! i)
                 then (load_scheduled_posts w ! i)\<lparr>posted_field := Some False, posted_at_field := None\<rparr>
                 else load_scheduled_posts w ! i))
        \<and> ((\<exists>p\<in>set (load_scheduled_posts w). get_posted p) \<longrightarrow>
              scheduled_posts_file (reset_annual_posts_if_new_year e w)
                = Content (load_scheduled_posts (reset_annual_posts_if_new_year e w))
              \<and> effects (reset_annual_posts_if_new_year e w) = effects w @ [WriteScheduled])
        \<and> ((\<forall>p\<in>set (load_scheduled_posts w). \<not> get_posted p) \<longrightarrow>
              reset_annual_posts_if_new_year e w = w))
   \<and> reset_annual_posts_if_new_year e (reset_annual_posts_if_new_year e w)
        = reset_annual_posts_if_new_year e w"
proof -
  have a: "today_month e \<noteq> 1 \<or> today_day e \<noteq> 1 \<longrightarrow> reset_annual_posts_if_new_year e w = w"
    using reset_not_new_year by blast
  have b: "length (load_scheduled_posts (reset_annual_posts_if_new_year e w))
             = length (load_scheduled_posts w)"
    if "today_month e = 1 \<and> today_day e = 1"
    using that by (simp add: reset_load_new_year reset_loop_fst)
  have c: "\<forall>i < length (load_scheduled_posts w).
              load_scheduled_posts (reset_annual_posts_if_new_year e w) ! i =
                (if get_posted (load_scheduled_posts w ! i)
                 then (load_scheduled_posts w ! i)\<lparr>posted_field := Some False, posted_at_field := None\<rparr>
                 else load_scheduled_posts w ! i)"
    if "today_month e = 1 \<and> today_day e = 1"
    using that by (simp add: reset_load_new_year reset_loop_fst)
  have d: "scheduled_posts_file (reset_annual_posts_if_new_year e w)
                = Content (load_scheduled_posts (reset_annual_posts_if_new_year e w))
              \<and> effects (reset_annual_posts_if_new_year e w) = effects w @ [WriteScheduled]"
    if "today_month e = 1 \<and> today_day e = 1" "\<exists>p\<in>set (load_scheduled_posts w). get_posted p"
    using reset_new_year_some_posted[of e w] that
    by (simp add: write_scheduled_posts_def load_scheduled_posts_def)
  have f: "(\<forall>p\<in>set (load_scheduled_posts w). \<not> get_posted p) \<longrightarrow>
              reset_annual_posts_if_new_year e w = w"
    using reset_nothing_posted by blast
  show ?thesis
    using a b c d f reset_idem[of e w] by blast
qed

theorem annual_reset_on_new_year_witness:
  "load_scheduled_posts (reset_annual_posts_if_new_year (example_env 1 1 True True)
      (example_world [example_post ''2023-12-25'' ''Merry Xmas'' True,
                      example_post ''2024-07-04'' ''Fireworks'' False] [] []))
     = [(example_post ''2023-12-25'' ''Merry Xmas'' False),
        example_post ''2024-07-04'' ''Fireworks'' False]
   \<and> effects (reset_annual_posts_if_new_year (example_env 1 1 True True)
      (example_world [example_post ''2023-12-25'' ''Merry Xmas'' True,
                      example_post ''2024-07-04'' ''Fireworks'' False] [] [])) = [WriteScheduled]
   \<and> reset_annual_posts_if_new_year (example_env 1 2 True True)
      (example_world [example_post ''2023-12-25'' ''Merry Xmas'' True,
                      example_post ''2024-07-04'' ''Fireworks'' False] [] [])
     = example_world [example_post ''2023-12-25'' ''Merry Xmas'' True,
                      example_post ''2024-07-04'' ''Fireworks'' False] [] []
   \<and> reset_annual_posts_if_new_year (example_env 1 1 True True)
      (example_world [example_post ''2024-07-04'' ''Fireworks'' False] [] [])
     = example_world [example_post ''2024-07-04'' ''Fireworks'' False] [] []"
proof -
  let ?ps = "[example_post ''2023-12-25'' ''Merry Xmas'' True,
              example_post ''2024-07-04'' ''Fireworks'' False]"
  let ?w = "example_world ?ps [] []"
  let ?e = "example_env 1 1 True True"
  let ?r = "load_scheduled_posts (reset_annual_posts_if_new_year ?e ?w)"
  have l: "load_scheduled_posts ?w = ?ps"
    by (simp add: load_scheduled_posts_def example_world_def)
  have d: "today_month ?e = 1 \<and> today_day ?e = 1" by (simp add: example_env_def)
  have p: "get_posted (example_post ''2023-12-25'' ''Merry Xmas'' True)"
          "\<not> get_posted (example_post ''2024-07-04'' ''Fireworks'' False)"
    by (simp_all add: get_posted_def example_post_def)
  note t = annual_reset_on_new_year[of ?e ?w]
  have len: "length ?r = 2" using t d l by simp
  have "\<forall>i<2. ?r ! i = (if get_posted (?ps ! i)
                 then (?ps ! i)\<lparr>posted_field := Some False, posted_at_field := None\<rparr>
                 else ?ps ! i)"
    using t d l by simp
  then have "?r ! 0 = example_post ''2023-12-25'' ''Merry Xmas'' False"
       and "?r ! 1 = example_post ''2024-07-04'' ''Fireworks'' False"
    using p by (simp_all add: example_post_def)
  then have r: "?r = [example_post ''2023-12-25'' ''Merry Xmas'' False,
                      example_post ''2024-07-04'' ''Fireworks'' False]"
    using len by (auto simp add: list_eq_iff_nth_eq less_Suc_eq numeral_2_eq_2)
  have ef: "effects (reset_annual_posts_if_new_year ?e ?w) = [WriteScheduled]"
    using t d l p by (simp add: example_world_def)
  have o: "reset_annual_posts_if_new_year (example_env 1 2 True True) ?w = ?w"
    using annual_reset_on_new_year[of "example_env 1 2 True True" ?w] by (simp add: example_env_def)
  have n: "reset_annual_posts_if_new_year ?e
             (example_world [example_post ''2024-07-04'' ''Fireworks'' False] [] [])
           = example_world [example_post ''2024-07-04'' ''Fireworks'' False] [] []"
    using annual_reset_on_new_year[of ?e "example_world [example_post ''2024-07-04'' ''Fireworks'' False] [] []"] d p
    by (simp add: load_scheduled_posts_def example_world_def)
  show ?thesis using r ef o n by simp
qed

section \<open>The history file\<close>

text \<open>
  Claim C5. Whatever sequence \<^verbatim>\<open>save_state\<close> is given, the history file then holds the last
  220 entries of it, in the same order (the whole sequence when it has 220 entries or
  fewer); so a saved history never has more than 220 entries.
\<close>

theorem save_state_keeps_last_220:
  "state_file (save_state h w) = Content (Some (drop (length h - 220) h))
   \<and> load_state (save_state h w) = drop (length h - 220) h
   \<and> length (load_state (save_state h w)) = min 220 (length h)
   \<and> length (load_state (save_state h w)) \<le> 220
   \<and> h = take (length h - 220) h @ load_state (save_state h w)"
proof -
  have s: "slice_from (- 220) h = drop (length h - 220) h"
    using slice_from_neg[of 220 h] by simp
  show ?thesis
    unfolding save_state_def load_state_def Let_def s by (simp add: min_def)
qed

theorem save_state_keeps_last_220_witness:
  "load_state (save_state (''z'' # replicate 219 ''a'' @ [''b'']) (example_world [] [] []))
     = replicate 219 ''a'' @ [''b'']"
  using save_state_keeps_last_220[of "''z'' # replicate 219 ''a'' @ [''b'']" "example_world [] [] []"]
  by simp

section \<open>The rotation of generic posts\<close>

text \<open>
  Claim C6. When the rotation is reached with a pool that is not empty and every post of
  the pool is in the history, no post is available, the text is drawn from the whole pool,
  and after a successful send the history file holds the sent text alone.
\<close>

theorem exhausted_pool_starts_fresh_cycle:
  assumes "find_scheduled_post_for_today e (reset_annual_posts_if_new_year e w) = None"
    and "load_regular_posts w \<noteq> []"
    and "set (load_regular_posts w) \<subseteq> set (load_state w)"
  shows "available_posts (load_regular_posts w) (load_state w) = []
    \<and> load_regular_posts w ! (random_draw e mod length (load_regular_posts w))
         \<in> set (load_regular_posts w)
    \<and> (login_ok e \<and> send_ok e (load_regular_posts w ! (random_draw e mod length (load_regular_posts w)))
        \<longrightarrow> fst (post_next e w) = True
          \<and> state_file (snd (post_next e w)) =
              Content (Some [load_regular_posts w ! (random_draw e mod length (load_regular_posts w))])
          \<and> load_state (snd (post_next e w)) =
              [load_regular_posts w ! (random_draw e mod length (load_regular_posts w))]
          \<and> effects (snd (post_next e w)) =
              effects (reset_annual_posts_if_new_year e w) @
                [Login,
                 SendPost (load_regular_posts w ! (random_draw e mod length (load_regular_posts w))),
                 WriteState])"
proof -
  let ?P = "load_regular_posts w"
  let ?c = "?P ! (random_draw e mod length ?P)"
  let ?r = "reset_annual_posts_if_new_year e w"
  have av: "available_posts ?P (load_state w) = []"
    using assms(3) by (auto simp add: available_posts_def filter_empty_conv)
  have mem: "?c \<in> set ?P" using assms(2) by simp
  have s: "slice_from (- 220) [?c] = [?c]"
    by (simp add: slice_from_def)
  have run: "post_next e w =
               (True, ?r\<lparr>state_file := Content (Some [?c]),
                         effects := effects ?r @ [Login, SendPost ?c, WriteState]\<rparr>)"
    if "login_ok e \<and> send_ok e ?c"
    using that assms(2) av s
    by (simp add: post_next_not_found[OF assms(1)] post_regular_unfold
          reset_load_regular reset_load_state random_choice_def Let_def)
  show ?thesis
    using av mem run by (auto simp add: load_state_def)
qed

theorem exhausted_pool_starts_fresh_cycle_witness:
  "fst (post_next (example_env 12 25 True True) (example_world [] ''a\<newline>b\<newline>'' [''a'', ''b''])) = True
   \<and> load_state (snd (post_next (example_env 12 25 True True)
         (example_world [] ''a\<newline>b\<newline>'' [''a'', ''b'']))) = [''a'']"
proof -
  let ?e = "example_env 12 25 True True"
  let ?w = "example_world [] ''a\<newline>b\<newline>'' [''a'', ''b'']"
  have h1: "find_scheduled_post_for_today ?e (reset_annual_posts_if_new_year ?e ?w) = None"
    by (rule example_no_entries)
  have h2: "load_regular_posts ?w \<noteq> []" by (simp add: example_pool)
  have h3: "set (load_regular_posts ?w) \<subseteq> set (load_state ?w)"
    by (simp add: example_pool example_history)
  have ok: "login_ok ?e \<and> send_ok ?e t" for t by (simp add: example_env_def)
  have d: "random_draw ?e = 0" by (simp add: example_env_def)
  show ?thesis
    using exhausted_pool_starts_fresh_cycle[OF h1 h2 h3] ok
    by (simp add: example_pool d)
qed

text \<open>
  Claim C7. When the rotation is reached and some post of the pool is not in the history
  (equality of strings), the chosen text is in the pool and not in the history, and after
  a successful send the history file holds the old history followed by the chosen text,
  cut to its last 220 entries.
\<close>

theorem fresh_post_appended_to_history:
  assumes "find_scheduled_post_for_today e (reset_annual_posts_if_new_year e w) = None"
    and "\<exists>p\<in>set (load_regular_posts w). p \<notin> set (load_state w)"
  shows "random_choice e (available_posts (load_regular_posts w) (load_state w))
           \<in> set (load_regular_posts w)
    \<and> random_choice e (available_posts (load_regular_posts w) (load_state w))
           \<notin> set (load_state w)
    \<and> (login_ok e \<longrightarrow>
          SendPost (random_choice e (available_posts (load_regular_posts w) (load_state w)))
            \<in> set (effects (snd (post_next e w))))
    \<and> (login_ok e
        \<and> send_ok e (random_choice e (available_posts (load_regular_posts w) (load_state w)))
        \<longrightarrow> fst (post_next e w) = True
          \<and> load_state (snd (post_next e w)) =
              drop (length (load_state w) + 1 - 220)
                (load_state w @ [random_choice e (available_posts (load_regular_posts w) (load_state w))])
          \<and> (length (load_state w) < 220 \<longrightarrow>
                load_state (snd (post_next e w)) =
                  load_state w @ [random_choice e (available_posts (load_regular_posts w) (load_state w))]))"
proof -
  let ?P = "load_regular_posts w"
  let ?H = "load_state w"
  let ?A = "available_posts ?P ?H"
  let ?c = "random_choice e ?A"
  let ?r = "reset_annual_posts_if_new_year e w"
  have ne: "?A \<noteq> []"
    using assms(2) by (auto simp add: available_posts_def filter_empty_conv)
  have pne: "?P \<noteq> []" using assms(2) by auto
  have "?c \<in> set ?A" using ne by (rule random_choice_mem)
  then have mem: "?c \<in> set ?P \<and> ?c \<notin> set ?H"
    by (simp add: available_posts_def)
  have s: "slice_from (- 220) (?H @ [?c]) = drop (length ?H + 1 - 220) (?H @ [?c])"
    using slice_from_neg[of 220 "?H @ [?c]"] by simp
  have sent: "SendPost ?c \<in> set (effects (snd (post_next e w)))" if "login_ok e"
    using that ne pne
    by (simp add: post_next_not_found[OF assms(1)] post_regular_unfold
          reset_load_regular reset_load_state Let_def)
  have run: "post_next e w =
               (True, ?r\<lparr>state_file := Content (Some (drop (length ?H + 1 - 220) (?H @ [?c]))),
                         effects := effects ?r @ [Login, SendPost ?c, WriteState]\<rparr>)"
    if "login_ok e \<and> send_ok e ?c"
    using that ne pne s
    by (simp add: post_next_not_found[OF assms(1)] post_regular_unfold
          reset_load_regular reset_load_state Let_def)
  show ?thesis
    using mem sent run by (auto simp add: load_state_def)
qed

theorem fresh_post_appended_to_history_witness:
  "fst (post_next (example_env 12 25 True True)
         (example_world [] ''a\<newline>b\<newline>c\<newline>'' [''a'', ''b''])) = True
   \<and> load_state (snd (post_next (example_env 12 25 True True)
         (example_world [] ''a\<newline>b\<newline>c\<newline>'' [''a'', ''b'']))) = [''a'', ''b'', ''c'']"
proof -
  let ?e = "example_env 12 25 True True"
  let ?w = "example_world [] ''a\<newline>b\<newline>c\<newline>'' [''a'', ''b'']"
  have h1: "find_scheduled_post_for_today ?e (reset_annual_posts_if_new_year ?e ?w) = None"
    by (rule example_no_entries)
  have h2: "\<exists>p\<in>set (load_regular_posts ?w). p \<notin> set (load_state ?w)"
    by (simp add: example_pool example_history)
  have ok: "login_ok ?e \<and> send_ok ?e t" for t by (simp add: example_env_def)
  have c: "random_choice ?e (available_posts (load_regular_posts ?w) (load_state ?w)) = ''c''"
    by (simp add: example_pool example_history available_posts_def random_choice_def)
  show ?thesis
    using fresh_post_appended_to_history[OF h1 h2, unfolded c] ok
    by (simp add: example_history)
qed

section \<open>Nothing to post\<close>

text \<open>
  Claim C8, as the code has it. When the selector finds no entry in the file as the reset
  left it and the pool is empty, the run fails: no login and no send is tried, the exit
  status is 1, the history file is not written, and the only write there can be is that
  of the reset of January 1st. On every other day, and on January 1st when no entry was
  posted, the run leaves everything as it found it.
\<close>

theorem empty_pool_fails_after_reset:
  assumes "find_scheduled_post_for_today e (reset_annual_posts_if_new_year e w) = None"
    and "load_regular_posts w = []"
  shows "post_next e w = (False, reset_annual_posts_if_new_year e w)
    \<and> fst (main e w) = 1
    \<and> (snd (main e w) = w \<or> snd (main e w) = reset_annual_posts_if_new_year e w)
    \<and> regular_posts_file (snd (main e w)) = regular_posts_file w
    \<and> state_file (snd (main e w)) = state_file w
    \<and> (effects (snd (main e w)) = effects w
         \<or> effects (snd (main e w)) = effects w @ [WriteScheduled])
    \<and> (today_month e \<noteq> 1 \<or> today_day e \<noteq> 1
          \<or> (\<forall>p\<in>set (load_scheduled_posts w). \<not> get_posted p) \<longrightarrow>
        snd (main e w) = w)"
proof -
  let ?r = "reset_annual_posts_if_new_year e w"
  have run: "post_next e w = (False, ?r)"
    using assms(2)
    by (simp add: post_next_not_found[OF assms(1)] post_regular_unfold reset_load_regular)
  have m: "main e w = (1, w) \<or> main e w = (1, ?r)"
    by (simp add: main_def run)
  have same: "?r = w"
    if "today_month e \<noteq> 1 \<or> today_day e \<noteq> 1
          \<or> (\<forall>p\<in>set (load_scheduled_posts w). \<not> get_posted p)"
    using that reset_not_new_year[of e w] reset_nothing_posted[of w e] by blast
  show ?thesis
    using run m same reset_other_files[of e w] reset_effects_cases[of e w] by auto
qed

text \<open>
  On January 1st, with one posted entry for July 4th and an empty pool: nothing matches
  today before or after the reset, the run exits with status 1, and the date-anchored
  file has been rewritten.
\<close>

theorem empty_pool_writes_on_new_year_counterexample:
  "find_scheduled_post_for_today (example_env 1 1 True True)
      (example_world [example_post ''2024-07-04'' ''Fireworks'' True] [] []) = None
   \<and> load_regular_posts (example_world [example_post ''2024-07-04'' ''Fireworks'' True] [] []) = []
   \<and> fst (main (example_env 1 1 True True)
        (example_world [example_post ''2024-07-04'' ''Fireworks'' True] [] [])) = 1
   \<and> effects (snd (main (example_env 1 1 True True)
        (example_world [example_post ''2024-07-04'' ''Fireworks'' True] [] []))) = [WriteScheduled]
   \<and> scheduled_posts_file (snd (main (example_env 1 1 True True)
        (example_world [example_post ''2024-07-04'' ''Fireworks'' True] [] [])))
      = Content [example_post ''2024-07-04'' ''Fireworks'' False]
   \<and> scheduled_posts_file (snd (main (example_env 1 1 True True)
        (example_world [example_post ''2024-07-04'' ''Fireworks'' True] [] [])))
      \<noteq> scheduled_posts_file (example_world [example_post ''2024-07-04'' ''Fireworks'' True] [] [])"
  by (simp add: example_run_defs)

theorem empty_pool_fails_after_reset_witness:
  "main (example_env 12 25 True True)
      (example_world [example_post ''2022-12-25'' ''Old greeting'' True] [] [''hello''])
     = (1, example_world [example_post ''2022-12-25'' ''Old greeting'' True] [] [''hello''])"
proof -
  let ?e = "example_env 12 25 True True"
  let ?w = "example_world [example_post ''2022-12-25'' ''Old greeting'' True] [] [''hello'']"
  have h1: "find_scheduled_post_for_today ?e (reset_annual_posts_if_new_year ?e ?w) = None"
    by (simp add: example_run_defs)
  have h2: "load_regular_posts ?w = []" by (simp add: example_pool)
  have d: "today_month ?e \<noteq> 1" by (simp add: example_env_def)
  from empty_pool_fails_after_reset[OF h1 h2] d
  have "fst (main ?e ?w) = 1 \<and> snd (main ?e ?w) = ?w" by blast
  then show ?thesis by (simp add: prod_eq_iff)
qed

section \<open>The generic pool\<close>

text \<open>
  Claim C9. \<^verbatim>\<open>load_regular_posts\<close> returns nothing when the pool file is absent. Otherwise
  it returns, in the order of the file, one post for each line that has a character
  other than white space: the line stripped of the white space around it. Lines that are
  empty or hold only white space give no post.
\<close>

theorem load_regular_posts_lines:
  "(regular_posts_file w = Absent \<longrightarrow> load_regular_posts w = [])
   \<and> (regular_posts_file w = Content t \<longrightarrow>
        load_regular_posts w = map strip (filter (\<lambda>l. \<not> list_all is_space l) (file_lines t))
        \<and> length (load_regular_posts w) = length (filter (\<lambda>l. \<not> list_all is_space l) (file_lines t))
        \<and> (\<forall>p \<in> set (load_regular_posts w).
              p \<noteq> [] \<and> \<not> is_space (hd p) \<and> \<not> is_space (last p)))"
proof -
  have f: "(\<lambda>line. strip line \<noteq> []) = (\<lambda>l. \<not> list_all is_space l)"
    by (simp add: strip_empty_iff)
  have g: "\<not> is_space (hd (strip l)) \<and> \<not> is_space (last (strip l))"
    if "\<not> list_all is_space l" for l
    using that strip_no_outer_space[of l] by (simp add: strip_empty_iff)
  show ?thesis
    by (auto simp add: load_regular_posts_def f strip_empty_iff g)
qed

theorem load_regular_posts_lines_witness:
  "load_regular_posts (example_world [] ''  first post \<newline>\<newline>   \<newline>second\<newline>'' [])
     = [''first post'', ''second'']
   \<and> load_regular_posts ((example_world [] [] [])\<lparr>regular_posts_file := Absent\<rparr>) = []"
proof -
  let ?t = "''  first post \<newline>\<newline>   \<newline>second\<newline>''"
  let ?w = "example_world [] ?t []"
  let ?a = "(example_world [] [] [])\<lparr>regular_posts_file := Absent\<rparr>"
  have c: "regular_posts_file ?w = Content ?t" by (simp add: example_world_def)
  have a: "regular_posts_file ?a = Absent" by simp
  have l: "file_lines ?t = [''  first post \<newline>'', ''\<newline>'', ''   \<newline>'', ''second\<newline>'']"
    by (simp add: file_lines_def)
  show ?thesis
    using load_regular_posts_lines[of ?w ?t] load_regular_posts_lines[of ?a "[]"] c a
    by (simp add: l is_space_def strip_def lstrip_def rstrip_def)
qed

section \<open>A selected entry without text\<close>

text \<open>
  Claim C10, as the code has it. When the entry selected in the file as the reset left it
  has an empty or missing text, the run fails at once: no login, no send, no rotation, and
  the world is the one the reset left. On every day other than January 1st, and on
  January 1st when no entry was posted, that is the world the run started with.
\<close>

theorem empty_text_fails_after_reset:
  assumes "find_scheduled_post_for_today e (reset_annual_posts_if_new_year e w) = Some p"
    and "get_text p = []"
  shows "post_next e w = (False, reset_annual_posts_if_new_year e w)
    \<and> regular_posts_file (snd (post_next e w)) = regular_posts_file w
    \<and> state_file (snd (post_next e w)) = state_file w
    \<and> (effects (snd (post_next e w)) = effects w
         \<or> effects (snd (post_next e w)) = effects w @ [WriteScheduled])
    \<and> (today_month e \<noteq> 1 \<or> today_day e \<noteq> 1
          \<or> (\<forall>p\<in>set (load_scheduled_posts w). \<not> get_posted p) \<longrightarrow>
        post_next e w = (False, w))"
proof -
  let ?r = "reset_annual_posts_if_new_year e w"
  have run: "post_next e w = (False, ?r)"
    using assms(2) by (simp add: post_next_found[OF assms(1)] post_scheduled_unfold)
  have same: "?r = w"
    if "today_month e \<noteq> 1 \<or> today_day e \<noteq> 1
          \<or> (\<forall>p\<in>set (load_scheduled_posts w). \<not> get_posted p)"
    using that reset_not_new_year[of e w] reset_nothing_posted[of w e] by blast
  show ?thesis
    using run same reset_other_files[of e w] reset_effects_cases[of e w] by auto
qed

text \<open>
  On January 1st, with an unposted entry for that day without text and a posted entry for
  July 4th: the run fails without a login, and the date-anchored file has been rewritten.
\<close>

theorem empty_text_writes_on_new_year_counterexample:
  "find_scheduled_post_for_today (example_env 1 1 True True)
      (example_world [example_post ''2020-01-01'' [] False,
                      example_post ''2024-07-04'' ''Fireworks'' True] ''hello'' [])
     = Some (example_post ''2020-01-01'' [] False)
   \<and> get_text (example_post ''2020-01-01'' [] False) = []
   \<and> fst (post_next (example_env 1 1 True True)
      (example_world [example_post ''2020-01-01'' [] False,
                      example_post ''2024-07-04'' ''Fireworks'' True] ''hello'' [])) = False
   \<and> effects (snd (post_next (example_env 1 1 True True)
      (example_world [example_post ''2020-01-01'' [] False,
                      example_post ''2024-07-04'' ''Fireworks'' True] ''hello'' []))) = [WriteScheduled]
   \<and> scheduled_posts_file (snd (post_next (example_env 1 1 True True)
      (example_world [example_post ''2020-01-01'' [] False,
                      example_post ''2024-07-04'' ''Fireworks'' True] ''hello'' [])))
     = Content [example_post ''2020-01-01'' [] False,
                example_post ''2024-07-04'' ''Fireworks'' False]
   \<and> scheduled_posts_file (snd (post_next (example_env 1 1 True True)
      (example_world [example_post ''2020-01-01'' [] False,
                      example_post ''2024-07-04'' ''Fireworks'' True] ''hello'' [])))
     \<noteq> scheduled_posts_file
          (example_world [example_post ''2020-01-01'' [] False,
                          example_post ''2024-07-04'' ''Fireworks'' True] ''hello'' [])"
  by (simp add: example_run_defs)

theorem empty_text_fails_after_reset_witness:
  "post_next (example_env 12 25 True True)
      (example_world [example_post ''2023-12-25'' [] False] ''hello'' [])
     = (False, example_world [example_post ''2023-12-25'' [] False] ''hello'' [])"
proof -
  let ?e = "example_env 12 25 True True"
  let ?w = "example_world [example_post ''2023-12-25'' [] False] ''hello'' []"
  have h1: "find_scheduled_post_for_today ?e (reset_annual_posts_if_new_year ?e ?w)
              = Some (example_post ''2023-12-25'' [] False)"
    by (simp add: example_run_defs)
  have h2: "get_text (example_post ''2023-12-25'' [] False) = []"
    by (simp add: get_text_def example_post_def)
  have d: "today_month ?e \<noteq> 1" by (simp add: example_env_def)
  from empty_text_fails_after_reset[OF h1 h2] d
  show ?thesis by blast
qed

end
